theory Spec2Isabelle
  imports Main "HOL-Library.Sublist"
begin

section \<open>JavaScript values used by the HDFS file source\<close>

text \<open>
  A string is \<^typ>\<open>string\<close>: the list of the bytes of its UTF-8 encoding, so that a
  \<open>Buffer\<close> is the list of its bytes and \<open>Buffer.from\<close> of a string is that list.
  The code searches strings for ASCII text only (the two delimiters, the digits and
  signs of a port, an error phrase), and UTF-8 uses no ASCII byte inside the encoding of
  another character: the part of a string before or after such a text is the same
  whether positions count bytes or UTF-16 code units.

  A number is a double with an integer value, one of the two infinities, the negative
  zero or the not-a-number value. \<open>Num n\<close> is the double of value \<open>n\<close>; the code only
  counts lines and bytes and parses a port, so fractional doubles are left out of the
  model.
\<close>

datatype js_number = NaN | Num int | NegZero | PosInfinity | NegInfinity

text \<open>An \<open>Error\<close> object, with the two fields the code reads.\<close>

record js_error =
  name :: string
  message :: string

text \<open>
  What a stream or a callback hands over as its error: a string or an \<open>Error\<close>
  object (\<open>string | Error\<close> in \<open>writeFile\<close>).
\<close>

datatype err_value = ErrStr string | ErrObj js_error


text \<open>Truthiness, as \<open>if (x)\<close> and \<open>!x\<close> test it.\<close>

fun truthy_number :: "js_number option \<Rightarrow> bool" where
  "truthy_number None = False"
| "truthy_number (Some NaN) = False"
| "truthy_number (Some (Num n)) = (n \<noteq> 0)"
| "truthy_number (Some NegZero) = False"
| "truthy_number (Some PosInfinity) = True"
| "truthy_number (Some NegInfinity) = True"

fun truthy_string :: "string option \<Rightarrow> bool" where
  "truthy_string None = False"
| "truthy_string (Some s) = (s \<noteq> [])"

fun truthy_err :: "err_value option \<Rightarrow> bool" where
  "truthy_err None = False"
| "truthy_err (Some (ErrStr s)) = (s \<noteq> [])"
| "truthy_err (Some (ErrObj e)) = True"

text \<open>
  \<open>a >= b\<close> on numbers: false as soon as one side is not a number; the negative zero
  compares as zero.
\<close>

fun js_ge :: "js_number \<Rightarrow> js_number \<Rightarrow> bool" where
  "js_ge NaN _ = False"
| "js_ge _ NaN = False"
| "js_ge PosInfinity _ = True"
| "js_ge _ NegInfinity = True"
| "js_ge NegInfinity _ = False"
| "js_ge _ PosInfinity = False"
| "js_ge (Num a) (Num b) = (b \<le> a)"
| "js_ge (Num a) NegZero = (0 \<le> a)"
| "js_ge NegZero (Num b) = (b \<le> 0)"
| "js_ge NegZero NegZero = True"

text \<open>\<open>Error.prototype.toString\<close> and \<open>toString\<close> of a string.\<close>

definition error_toString :: "js_error \<Rightarrow> string" where
  "error_toString e =
     (if name e = [] then message e
      else if message e = [] then name e
      else name e @ '': '' @ message e)"

fun toString :: "err_value \<Rightarrow> string" where
  "toString (ErrStr s) = s"
| "toString (ErrObj e) = error_toString e"

subsection \<open>String operations\<close>

text \<open>The position of the first occurrence of \<open>pat\<close> in \<open>s\<close>, if there is one.\<close>

fun index_of :: "'a list \<Rightarrow> 'a list \<Rightarrow> nat option" where
  "index_of pat [] = (if pat = [] then Some 0 else None)"
| "index_of pat (c # cs) =
     (if prefix pat (c # cs) then Some 0 else map_option Suc (index_of pat cs))"


text \<open>\<open>s.includes(pat)\<close>.\<close>

definition str_includes :: "string \<Rightarrow> string \<Rightarrow> bool" where
  "str_includes s pat = (index_of pat s \<noteq> None)"




text \<open>\<open>xs.join(sep)\<close>.\<close>

fun join :: "string list \<Rightarrow> string \<Rightarrow> string" where
  "join [] sep = []"
| "join [x] sep = x"
| "join (x # y # ys) sep = x @ sep @ join (y # ys) sep"

subsection \<open>\<open>Number.parseInt\<close> with no radix\<close>

text \<open>
  The white space and line terminators that \<open>parseInt\<close> skips, in UTF-8: the six
  ASCII ones in one byte, U+00A0 in two, and in three bytes U+1680, U+2000 to U+200A,
  U+2028, U+2029, U+202F, U+205F, U+3000 and U+FEFF.
\<close>

definition isWhiteSpace :: "char \<Rightarrow> bool" where
  "isWhiteSpace c = (c \<in> set [CHR '' '', CHR 0x09, CHR 0x0A, CHR 0x0B, CHR 0x0C, CHR 0x0D])"

definition isWhiteSpace2 :: "char \<Rightarrow> char \<Rightarrow> bool" where
  "isWhiteSpace2 a b = (a = CHR 0xC2 \<and> b = CHR 0xA0)"

definition isWhiteSpace3 :: "char \<Rightarrow> char \<Rightarrow> char \<Rightarrow> bool" where
  "isWhiteSpace3 a b c =
     ((a = CHR 0xE1 \<and> b = CHR 0x9A \<and> c = CHR 0x80)
      \<or> (a = CHR 0xE2 \<and> b = CHR 0x80
          \<and> ((128 \<le> (of_char c :: nat) \<and> (of_char c :: nat) \<le> 138)
              \<or> c = CHR 0xA8 \<or> c = CHR 0xA9 \<or> c = CHR 0xAF))
      \<or> (a = CHR 0xE2 \<and> b = CHR 0x81 \<and> c = CHR 0x9F)
      \<or> (a = CHR 0xE3 \<and> b = CHR 0x80 \<and> c = CHR 0x80)
      \<or> (a = CHR 0xEF \<and> b = CHR 0xBB \<and> c = CHR 0xBF))"

fun trim_start :: "string \<Rightarrow> string" where
  "trim_start [] = []"
| "trim_start [a] = (if isWhiteSpace a then [] else [a])"
| "trim_start [a, b] =
     (if isWhiteSpace a then trim_start [b]
      else if isWhiteSpace2 a b then []
      else [a, b])"
| "trim_start (a # b # c # s) =
     (if isWhiteSpace a then trim_start (b # c # s)
      else if isWhiteSpace2 a b then trim_start (c # s)
      else if isWhiteSpace3 a b c then trim_start s
      else a # b # c # s)"

text \<open>The value of a character as a digit of the given radix (10 or 16).\<close>

definition digit_value :: "nat \<Rightarrow> char \<Rightarrow> nat option" where
  "digit_value radix c =
     (let n = of_char c :: nat in
      if 48 \<le> n \<and> n \<le> 57 then Some (n - 48)
      else if radix = 16 \<and> 97 \<le> n \<and> n \<le> 102 then Some (n - 87)
      else if radix = 16 \<and> 65 \<le> n \<and> n \<le> 70 then Some (n - 55)
      else None)"

text \<open>
  The longest prefix of digits, read in the radix; \<open>None\<close> when the string does not
  start with a digit.
\<close>

fun parse_digits :: "nat \<Rightarrow> nat option \<Rightarrow> string \<Rightarrow> nat option" where
  "parse_digits radix acc [] = acc"
| "parse_digits radix acc (c # cs) =
     (case digit_value radix c of
        None \<Rightarrow> acc
      | Some d \<Rightarrow>
          parse_digits radix (Some ((case acc of None \<Rightarrow> 0 | Some a \<Rightarrow> a) * radix + d)) cs)"

text \<open>
  The double nearest to a natural number, ties to the even significand of 53 bits;
  \<open>None\<close> when it is out of the range of the finite doubles. For more than 20
  significant decimal digits the language leaves the approximation to the
  implementation; the model rounds the exact value, as V8 does.
\<close>

fun bit_length :: "nat \<Rightarrow> nat" where
  "bit_length n = (if n = 0 then 0 else Suc (bit_length (n div 2)))"

declare bit_length.simps [simp del]

definition round_to_double :: "nat \<Rightarrow> nat option" where
  "round_to_double n =
     (let e = bit_length n - 53;
          q = n div 2 ^ e;
          r = n mod 2 ^ e;
          q' = (if 2 ^ e < 2 * r \<or> (2 * r = 2 ^ e \<and> odd q) then q + 1 else q);
          v = q' * 2 ^ e
      in if 2 ^ 1024 \<le> v then None else Some v)"

definition number_of_integer :: "bool \<Rightarrow> nat \<Rightarrow> js_number" where
  "number_of_integer negative n =
     (if n = 0 then (if negative then NegZero else Num 0)
      else case round_to_double n of
             None \<Rightarrow> (if negative then NegInfinity else PosInfinity)
           | Some v \<Rightarrow> Num (if negative then - int v else int v))"

text \<open>
  The steps of \<open>parseInt\<close>: skip the white space, take the sign, take the prefix
  \<open>0x\<close> or \<open>0X\<close> (the radix is then 16, and 10 otherwise), read the digits.
\<close>

definition strip_sign :: "string \<Rightarrow> bool \<times> string" where
  "strip_sign s =
     (s \<noteq> [] \<and> hd s = CHR ''-'',
      if s \<noteq> [] \<and> (hd s = CHR ''+'' \<or> hd s = CHR ''-'') then tl s else s)"

definition strip_radix :: "string \<Rightarrow> nat \<times> string" where
  "strip_radix s =
     (if prefix ''0x'' s \<or> prefix ''0X'' s then (16, drop 2 s) else (10, s))"

definition parseInt :: "string \<Rightarrow> js_number" where
  "parseInt input =
     (let (negative, s1) = strip_sign (trim_start input);
          (radix, s2) = strip_radix s1
      in case parse_digits radix None s2 of
           None \<Rightarrow> NaN
         | Some n \<Rightarrow> number_of_integer negative n)"

section \<open>Paths and files\<close>

text \<open>
  What the module takes from outside: the constant \<open>constants.hdfsRootPath\<close>, the
  helper \<open>utils.getErrorMessage\<close>, and the Node and npm libraries it imports. They
  are parameters of the model.
\<close>

datatype read_event = REvError err_value | REvData string | REvFinish

datatype line_event = LEvLine string | LEvError err_value | LEvClose

datatype write_event = WEvError err_value | WEvFinish string

record env =
  constants_hdfsRootPath :: string
  os_EOL :: string
  fspath_basename :: "string \<Rightarrow> string"
  meter :: "js_number \<Rightarrow> read_event list \<Rightarrow> read_event list"
  bytes :: "js_number option \<Rightarrow> string"
  readline_createInterface :: "read_event list \<Rightarrow> line_event list"
  utils_getErrorMessage :: "err_value \<Rightarrow> string"

definition joinHdfsPath :: "env \<Rightarrow> string \<Rightarrow> string \<Rightarrow> string" where
  "joinHdfsPath E parent child =
     (if parent = constants_hdfsRootPath E then ''/'' @ child
      else parent @ ''/'' @ child)"

record File =
  path :: string
  isDirectory :: bool

definition createPath :: "env \<Rightarrow> string \<Rightarrow> string \<Rightarrow> string" where
  "createPath E p fileName = joinHdfsPath E p fileName"

definition createChild :: "env \<Rightarrow> File \<Rightarrow> string \<Rightarrow> bool \<Rightarrow> File" where
  "createChild E parent fileName isDir =
     \<lparr>path = createPath E (path parent) fileName, isDirectory = isDir\<rparr>"

definition createFile :: "env \<Rightarrow> File \<Rightarrow> string \<Rightarrow> File" where
  "createFile E parent fileName = createChild E parent fileName False"

definition createDirectory :: "env \<Rightarrow> File \<Rightarrow> string \<Rightarrow> File" where
  "createDirectory E parent fileName = createChild E parent fileName True"

definition getBasename :: "env \<Rightarrow> File \<Rightarrow> string" where
  "getBasename E file = fspath_basename E (path file)"

section \<open>The factory\<close>

record IHttpAuthentication =
  user :: string
  pass :: string








section \<open>Promises\<close>

text \<open>
  A promise is modelled by the calls of \<open>resolve\<close> and \<open>reject\<close> its executor has
  made so far, in order. The first call settles the promise; the later ones change
  nothing.
\<close>

datatype ('v, 'e) settle = Resolve 'v | Reject 'e

datatype ('v, 'e) promise_state = Pending | Fulfilled 'v | Rejected 'e

type_synonym ('v, 'e) promise = "('v, 'e) settle list"

fun state_of :: "('v, 'e) promise \<Rightarrow> ('v, 'e) promise_state" where
  "state_of [] = Pending"
| "state_of (Resolve v # _) = Fulfilled v"
| "state_of (Reject e # _) = Rejected e"

definition resolve :: "'v \<Rightarrow> ('v, 'e) promise \<Rightarrow> ('v, 'e) promise" where
  "resolve v p = p @ [Resolve v]"

definition reject :: "'e \<Rightarrow> ('v, 'e) promise \<Rightarrow> ('v, 'e) promise" where
  "reject e p = p @ [Reject e]"

fun is_Resolve :: "('v, 'e) settle \<Rightarrow> bool" where
  "is_Resolve (Resolve _) = True"
| "is_Resolve (Reject _) = False"

section \<open>The client and the file source\<close>

record IHdfsFileStatus =
  type :: string
  pathSuffix :: string

text \<open>
  The client is outside the module. Of a callback method the model keeps the
  arguments of each call the client makes of the callback, in order; of a stream,
  the events it emits, in order. The write stream is given the remote path and the
  path of the local file piped into it.
\<close>

record IHdfsClient =
  client_readdir :: "string \<Rightarrow> (js_error option \<times> IHdfsFileStatus list) list"
  client_createReadStream :: "string \<Rightarrow> read_event list"
  client_createWriteStream :: "string \<Rightarrow> string \<Rightarrow> write_event list"
  client_mkdir :: "string \<Rightarrow> err_value option list"
  client_rmdir :: "string \<Rightarrow> bool \<Rightarrow> err_value option list"
  client_exists :: "string \<Rightarrow> bool list"

subsection \<open>\<open>enumerateFiles\<close>, \<open>mkdir\<close>, \<open>delete\<close>, \<open>exists\<close>\<close>

definition enumerateFiles_callback ::
  "env \<Rightarrow> string \<Rightarrow> (File list, string) promise \<Rightarrow> js_error option \<times> IHdfsFileStatus list
     \<Rightarrow> (File list, string) promise" where
  "enumerateFiles_callback E p pr args =
     (case args of
        (Some error, files) \<Rightarrow> reject (message error) pr
      | (None, files) \<Rightarrow>
          resolve (map (\<lambda>hdfsFile. \<lparr>path = createPath E p (pathSuffix hdfsFile),
                                     isDirectory = (type hdfsFile = ''DIRECTORY'')\<rparr>) files) pr)"

definition enumerateFiles :: "env \<Rightarrow> IHdfsClient \<Rightarrow> string \<Rightarrow> (File list, string) promise" where
  "enumerateFiles E client p = foldl (enumerateFiles_callback E p) [] (client_readdir client p)"

definition mkdir_callback ::
  "(unit, err_value) promise \<Rightarrow> err_value option \<Rightarrow> (unit, err_value) promise" where
  "mkdir_callback pr err =
     (case err of
        Some e \<Rightarrow> if truthy_err (Some e) then reject e pr else resolve () pr
      | None \<Rightarrow> resolve () pr)"

definition mkdir :: "env \<Rightarrow> IHdfsClient \<Rightarrow> string \<Rightarrow> string \<Rightarrow> (unit, err_value) promise" where
  "mkdir E client dirName remoteBasePath =
     (let remotePath = joinHdfsPath E remoteBasePath dirName
      in foldl mkdir_callback [] (client_mkdir client remotePath))"

definition delete_callback ::
  "(unit, err_value) promise \<Rightarrow> err_value option \<Rightarrow> (unit, err_value) promise" where
  "delete_callback pr error =
     (case error of
        Some e \<Rightarrow> if truthy_err (Some e) then reject e pr else resolve () pr
      | None \<Rightarrow> resolve () pr)"

definition delete :: "IHdfsClient \<Rightarrow> string \<Rightarrow> bool option \<Rightarrow> (unit, err_value) promise" where
  "delete client p recursive =
     foldl delete_callback []
       (client_rmdir client p (case recursive of None \<Rightarrow> False | Some r \<Rightarrow> r))"

definition exists :: "IHdfsClient \<Rightarrow> string \<Rightarrow> (bool, err_value) promise" where
  "exists client p = foldl (\<lambda>pr result. resolve result pr) [] (client_exists client p)"

subsection \<open>\<open>createReadStream\<close>\<close>

definition createReadStream :: "IHdfsClient \<Rightarrow> string \<Rightarrow> read_event list" where
  "createReadStream client p = client_createReadStream client p"

subsection \<open>\<open>readFile\<close>\<close>

text \<open>
  The variables of one call of \<open>readFile\<close>: the chunks, the captured error text, whether
  the \<open>once('finish')\<close> listener is still registered, and the promise.
\<close>

record readFile_state =
  rf_data :: "string list"
  rf_error :: "string option"
  rf_finish_listener :: bool
  rf_promise :: "(string, string) promise"

definition readFile_init :: readFile_state where
  "readFile_init = \<lparr>rf_data = [], rf_error = None, rf_finish_listener = True, rf_promise = []\<rparr>"

text \<open>The text the \<open>error\<close> listener captures and rejects with.\<close>

definition readFile_error_text :: "env \<Rightarrow> js_number option \<Rightarrow> err_value \<Rightarrow> string" where
  "readFile_error_text E maxBytes err =
     (let error = toString err
      in if str_includes error ''Stream exceeded specified max''
         then ''File exceeds max size of '' @ bytes E maxBytes
         else error)"

definition readFile_onError ::
  "env \<Rightarrow> js_number option \<Rightarrow> readFile_state \<Rightarrow> err_value \<Rightarrow> readFile_state" where
  "readFile_onError E maxBytes st err =
     (let error = readFile_error_text E maxBytes err
      in st\<lparr>rf_error := Some error, rf_promise := reject error (rf_promise st)\<rparr>)"

definition readFile_onData :: "readFile_state \<Rightarrow> string \<Rightarrow> readFile_state" where
  "readFile_onData st chunk = st\<lparr>rf_data := rf_data st @ [chunk]\<rparr>"

definition readFile_onFinish :: "readFile_state \<Rightarrow> readFile_state" where
  "readFile_onFinish st =
     (if \<not> truthy_string (rf_error st)
      then st\<lparr>rf_promise := resolve (concat (rf_data st)) (rf_promise st)\<rparr>
      else st)"

fun readFile_emit :: "env \<Rightarrow> js_number option \<Rightarrow> readFile_state \<Rightarrow> read_event \<Rightarrow> readFile_state" where
  "readFile_emit E maxBytes st (REvError err) = readFile_onError E maxBytes st err"
| "readFile_emit E maxBytes st (REvData chunk) = readFile_onData st chunk"
| "readFile_emit E maxBytes st REvFinish =
     (if rf_finish_listener st then readFile_onFinish (st\<lparr>rf_finish_listener := False\<rparr>)
      else st)"

text \<open>
  \<open>source.pipe(destination)\<close> writes the chunks of the source to the destination and
  ends it when the source ends; an error of the source is not passed on. The result is
  the destination's own stream, given here as a function of what is written to it.
\<close>

fun isError :: "read_event \<Rightarrow> bool" where
  "isError (REvError _) = True"
| "isError _ = False"

definition pipe :: "read_event list \<Rightarrow> (read_event list \<Rightarrow> read_event list) \<Rightarrow> read_event list" where
  "pipe source destination = destination (filter (\<lambda>ev. \<not> isError ev) source)"

text \<open>The stream the listeners are attached to: the limiter's when \<open>maxBytes\<close> is truthy.\<close>

definition readFile_stream :: "env \<Rightarrow> IHdfsClient \<Rightarrow> string \<Rightarrow> js_number option \<Rightarrow> read_event list" where
  "readFile_stream E client p maxBytes =
     (case maxBytes of
        Some n \<Rightarrow>
          if truthy_number (Some n) then pipe (client_createReadStream client p) (meter E n)
          else client_createReadStream client p
      | None \<Rightarrow> client_createReadStream client p)"

definition readFile :: "env \<Rightarrow> IHdfsClient \<Rightarrow> string \<Rightarrow> js_number option \<Rightarrow> readFile_state" where
  "readFile E client p maxBytes =
     foldl (readFile_emit E maxBytes) readFile_init (readFile_stream E client p maxBytes)"

subsection \<open>\<open>readFileLines\<close>\<close>

text \<open>
  The variables of one call, and whether the line reader has been closed.
  \<open>lineReader.close()\<close> does nothing on a closed reader; otherwise it marks the reader
  closed and emits \<open>close\<close> at once, which runs the \<open>close\<close> listener. The end of the
  input closes the reader the same way.
\<close>

record readFileLines_state =
  lineCount :: nat
  lineData :: "string list"
  errorMsg :: "string option"
  closed :: bool
  rl_promise :: "(string, string) promise"

definition readFileLines_init :: readFileLines_state where
  "readFileLines_init =
     \<lparr>lineCount = 0, lineData = [], errorMsg = None, closed = False, rl_promise = []\<rparr>"

definition readFileLines_onClose :: "env \<Rightarrow> readFileLines_state \<Rightarrow> readFileLines_state" where
  "readFileLines_onClose E st =
     (if \<not> truthy_string (errorMsg st)
      then st\<lparr>rl_promise := resolve (join (lineData st) (os_EOL E)) (rl_promise st)\<rparr>
      else st)"

definition lineReader_close :: "env \<Rightarrow> readFileLines_state \<Rightarrow> readFileLines_state" where
  "lineReader_close E st =
     (if closed st then st else readFileLines_onClose E (st\<lparr>closed := True\<rparr>))"

definition readFileLines_onLine ::
  "env \<Rightarrow> js_number \<Rightarrow> readFileLines_state \<Rightarrow> string \<Rightarrow> readFileLines_state" where
  "readFileLines_onLine E maxLines st line =
     (let st1 = st\<lparr>lineCount := lineCount st + 1, lineData := lineData st @ [line]\<rparr>
      in if js_ge (Num (int (lineCount st1))) maxLines
         then lineReader_close E
                (st1\<lparr>rl_promise := resolve (join (lineData st1) (os_EOL E)) (rl_promise st1)\<rparr>)
         else st1)"

definition readFileLines_onError ::
  "env \<Rightarrow> readFileLines_state \<Rightarrow> err_value \<Rightarrow> readFileLines_state" where
  "readFileLines_onError E st err =
     (let msg = utils_getErrorMessage E err
      in st\<lparr>errorMsg := Some msg, rl_promise := reject msg (rl_promise st)\<rparr>)"

fun readFileLines_emit ::
  "env \<Rightarrow> js_number \<Rightarrow> readFileLines_state \<Rightarrow> line_event \<Rightarrow> readFileLines_state" where
  "readFileLines_emit E maxLines st (LEvLine line) = readFileLines_onLine E maxLines st line"
| "readFileLines_emit E maxLines st (LEvError err) = readFileLines_onError E st err"
| "readFileLines_emit E maxLines st LEvClose = lineReader_close E st"

definition lineReader_events :: "env \<Rightarrow> IHdfsClient \<Rightarrow> string \<Rightarrow> line_event list" where
  "lineReader_events E client p = readline_createInterface E (client_createReadStream client p)"

definition readFileLines :: "env \<Rightarrow> IHdfsClient \<Rightarrow> string \<Rightarrow> js_number \<Rightarrow> readFileLines_state" where
  "readFileLines E client p maxLines =
     foldl (readFileLines_emit E maxLines) readFileLines_init (lineReader_events E client p)"

subsection \<open>\<open>writeFile\<close>\<close>

record writeFile_state =
  wf_error :: "err_value option"
  wf_promise :: "(string, err_value) promise"

definition writeFile_init :: writeFile_state where
  "writeFile_init = \<lparr>wf_error = None, wf_promise = []\<rparr>"

fun writeFile_emit :: "writeFile_state \<Rightarrow> write_event \<Rightarrow> writeFile_state" where
  "writeFile_emit st (WEvError err) =
     st\<lparr>wf_error := Some err, wf_promise := reject err (wf_promise st)\<rparr>"
| "writeFile_emit st (WEvFinish location) =
     (if \<not> truthy_err (wf_error st)
      then st\<lparr>wf_promise := resolve location (wf_promise st)\<rparr>
      else st)"

definition writeStream_events :: "env \<Rightarrow> IHdfsClient \<Rightarrow> File \<Rightarrow> string \<Rightarrow> write_event list" where
  "writeStream_events E client localFile remoteDirPath =
     (let fileName = fspath_basename E (path localFile);
          remotePath = joinHdfsPath E remoteDirPath fileName
      in client_createWriteStream client remotePath (path localFile))"

definition writeFile :: "env \<Rightarrow> IHdfsClient \<Rightarrow> File \<Rightarrow> string \<Rightarrow> writeFile_state" where
  "writeFile E client localFile remoteDirPath =
     foldl writeFile_emit writeFile_init (writeStream_events E client localFile remoteDirPath)"

section \<open>An environment and clients for the examples\<close>

text \<open>
  One instance of the outside world, used to run the definitions on concrete inputs:
  the root path \<open>/\<close>, the line terminator of POSIX, a base name that is the text
  after the last \<open>/\<close>, a byte formatter that prints the count in decimal followed by
  \<open>B\<close>, a limiter, and a line reader that emits one line per chunk and closes at the
  end of the input.

  The limiter passes the chunks on while it counts their bytes. Once the count is above
  a truthy limit it reports an error after the chunk and passes nothing more; it does
  not forward the errors of its source, and it finishes when the source does.
\<close>

fun decimal :: "nat \<Rightarrow> string" where
  "decimal n =
     (if n < 10 then [char_of (48 + n)] else decimal (n div 10) @ [char_of (48 + n mod 10)])"

declare decimal.simps [simp del]

definition example_bytes :: "js_number option \<Rightarrow> string" where
  "example_bytes n =
     (case n of
        Some (Num k) \<Rightarrow> (if k < 0 then ''-'' else []) @ decimal (nat \<bar>k\<bar>) @ ''B''
      | _ \<Rightarrow> ''null'')"

definition exceeded_error :: "js_number \<Rightarrow> err_value" where
  "exceeded_error maxBytes =
     ErrObj \<lparr>name = ''Error'',
       message = ''Stream exceeded specified max of ''
         @ (case maxBytes of Num k \<Rightarrow> (if k < 0 then ''-'' else []) @ decimal (nat \<bar>k\<bar>)
            | _ \<Rightarrow> ''NaN'')
         @ '' bytes.''\<rparr>"

fun example_meter_from :: "int \<Rightarrow> js_number \<Rightarrow> read_event list \<Rightarrow> read_event list" where
  "example_meter_from count maxBytes [] = []"
| "example_meter_from count maxBytes (REvData chunk # evs) =
     (let count' = count + int (length chunk)
      in if truthy_number (Some maxBytes) \<and> js_ge (Num count') maxBytes \<and> Num count' \<noteq> maxBytes
         then [REvData chunk, REvError (exceeded_error maxBytes)]
         else REvData chunk # example_meter_from count' maxBytes evs)"
| "example_meter_from count maxBytes (REvError err # evs) = example_meter_from count maxBytes evs"
| "example_meter_from count maxBytes (REvFinish # evs) = [REvFinish]"

fun example_lines :: "read_event list \<Rightarrow> line_event list" where
  "example_lines [] = []"
| "example_lines (REvData chunk # evs) = LEvLine chunk # example_lines evs"
| "example_lines (REvError err # evs) = LEvError err # example_lines evs"
| "example_lines (REvFinish # evs) = [LEvClose]"

definition example_basename :: "string \<Rightarrow> string" where
  "example_basename p = rev (takeWhile (\<lambda>c. c \<noteq> CHR ''/'') (rev p))"

definition example_env :: env where
  "example_env =
     \<lparr>constants_hdfsRootPath = ''/'',
      os_EOL = [CHR 0x0A],
      fspath_basename = example_basename,
      meter = example_meter_from 0,
      bytes = example_bytes,
      readline_createInterface = example_lines,
      utils_getErrorMessage = toString\<rparr>"

text \<open>A client that answers every call the same way.\<close>

definition example_client ::
  "(js_error option \<times> IHdfsFileStatus list) list \<Rightarrow> read_event list \<Rightarrow> write_event list
     \<Rightarrow> err_value option list \<Rightarrow> bool list \<Rightarrow> IHdfsClient" where
  "example_client listing reads writes results answers =
     \<lparr>client_readdir = (\<lambda>_. listing),
      client_createReadStream = (\<lambda>_. reads),
      client_createWriteStream = (\<lambda>_ _. writes),
      client_mkdir = (\<lambda>_. results),
      client_rmdir = (\<lambda>_ _. results),
      client_exists = (\<lambda>_. answers)\<rparr>"

section \<open>Definitions used to state the properties\<close>

text \<open>
  The two parts of a host string at the first occurrence of a delimiter, as the
  specification of the factory names them: the substring before the delimiter, and
  the remainder after it.
\<close>

definition host_before :: "char \<Rightarrow> string \<Rightarrow> string" where
  "host_before d h = takeWhile (\<lambda>c. c \<noteq> d) h"

definition host_after :: "char \<Rightarrow> string \<Rightarrow> string" where
  "host_after d h = tl (dropWhile (\<lambda>c. c \<noteq> d) h)"



definition example_error :: js_error where
  "example_error = \<lparr>name = ''Error'', message = ''boom''\<rparr>"

definition ten_bytes :: string where
  "ten_bytes = ''0123456789''"

definition reads_client :: "read_event list \<Rightarrow> IHdfsClient" where
  "reads_client reads = example_client [] reads [] [] []"

definition writes_client :: "write_event list \<Rightarrow> IHdfsClient" where
  "writes_client writes = example_client [] [] writes [] []"

section \<open>Facts about the string operations\<close>












lemma host_split: "d \<in> set h \<Longrightarrow> h = host_before d h @ d # host_after d h"
  unfolding host_before_def host_after_def by (induction h) auto




section \<open>Facts about parseInt\<close>

















section \<open>The factory's host normalization\<close>




lemma parseInt_negative_zero: "parseInt ''-0'' = NegZero"
  by (simp add: parseInt_def strip_sign_def strip_radix_def isWhiteSpace_def isWhiteSpace2_def
      isWhiteSpace3_def digit_value_def number_of_integer_def Let_def)




section \<open>Promises settle once\<close>

lemma state_of_append: "p \<noteq> [] \<Longrightarrow> state_of (p @ q) = state_of p"
  by (cases p rule: state_of.cases) simp_all

lemma state_of_resolve: "state_of (resolve v p) = (if p = [] then Fulfilled v else state_of p)"
  by (simp add: resolve_def state_of_append)

lemma state_of_reject: "state_of (reject e p) = (if p = [] then Rejected e else state_of p)"
  by (simp add: reject_def state_of_append)

lemma foldl_append_only:
  assumes "\<And>pr x. f pr x = pr @ f [] x"
  shows "foldl f pr xs = pr @ concat (map (f []) xs)"
proof (induction xs arbitrary: pr)
  case Nil
  show ?case by simp
next
  case (Cons x xs)
  have "foldl f pr (x # xs) = foldl f (f pr x) xs" by simp
  also have "\<dots> = f pr x @ concat (map (f []) xs)" by (rule Cons.IH)
  also have "\<dots> = pr @ f [] x @ concat (map (f []) xs)"
    using assms [of pr x] by simp
  finally show ?case by simp
qed

lemma state_of_first_call:
  assumes "\<And>pr x. f pr x = pr @ f [] x" and "f [] x \<noteq> []"
  shows "state_of (foldl f [] (x # xs)) = state_of (f [] x)"
proof -
  have "foldl f [] (x # xs) = [] @ concat (map (f []) (x # xs))"
    by (rule foldl_append_only) (rule assms(1))
  then have "foldl f [] (x # xs) = f [] x @ concat (map (f []) xs)"
    by simp
  then show ?thesis using assms(2) by (simp add: state_of_append)
qed

section \<open>The path joiner\<close>

text \<open>
  Claim C9. The path joiner returns \<open>/\<close> followed by the child when the parent is
  the root path, and parent, \<open>/\<close>, child otherwise. In particular joining the root
  and \<open>a\<close> gives \<open>/a\<close>, and joining \<open>/a\<close> and \<open>b\<close> gives \<open>/a/b\<close>
  (provided \<open>/a\<close> is not itself the root constant).
\<close>

theorem joinHdfsPath_root_or_child:
  "joinHdfsPath E parent child =
     (if parent = constants_hdfsRootPath E then ''/'' @ child else parent @ ''/'' @ child)
   \<and> joinHdfsPath E (constants_hdfsRootPath E) ''a'' = ''/a''
   \<and> (constants_hdfsRootPath E \<noteq> ''/a'' \<longrightarrow> joinHdfsPath E ''/a'' ''b'' = ''/a/b'')"
  by (simp add: joinHdfsPath_def)

theorem joinHdfsPath_root_or_child_witness:
  "constants_hdfsRootPath example_env \<noteq> ''/a''
   \<and> joinHdfsPath example_env ''/'' ''a'' = ''/a''
   \<and> joinHdfsPath example_env ''/a'' ''b'' = ''/a/b''"
  using joinHdfsPath_root_or_child [of example_env "''/a''" "''b''"]
    joinHdfsPath_root_or_child [of example_env "''/''" "''a''"]
  by (simp add: example_env_def)

section \<open>enumerateFiles\<close>

lemma enumerateFiles_callback_append:
  "enumerateFiles_callback E p pr args = pr @ enumerateFiles_callback E p [] args"
  by (auto simp: enumerateFiles_callback_def resolve_def reject_def split: prod.splits option.splits)

lemma enumerateFiles_callback_nonempty: "enumerateFiles_callback E p [] args \<noteq> []"
  by (auto simp: enumerateFiles_callback_def resolve_def reject_def split: prod.splits option.splits)

lemma enumerateFiles_first:
  "client_readdir client p = args # later \<Longrightarrow>
   state_of (enumerateFiles E client p) = state_of (enumerateFiles_callback E p [] args)"
  unfolding enumerateFiles_def
  using state_of_first_call [of "enumerateFiles_callback E p" args later]
    enumerateFiles_callback_append enumerateFiles_callback_nonempty
  by metis

text \<open>
  Claim C5. When the client reports a listing, \<open>enumerateFiles\<close> resolves with one
  file per entry, in the order of the listing: the path of each is the join of the
  directory path and the entry's suffix, and it is a directory exactly when the entry's
  type is \<open>DIRECTORY\<close>.
\<close>

theorem enumerateFiles_maps_listing:
  assumes "client_readdir client p = (None, files) # later"
  shows "\<exists>result. state_of (enumerateFiles E client p) = Fulfilled result
     \<and> result = map (\<lambda>f. \<lparr>path = joinHdfsPath E p (pathSuffix f),
                            isDirectory = (type f = ''DIRECTORY'')\<rparr>) files
     \<and> length result = length files
     \<and> (\<forall>i < length files.
           path (result ! i) = joinHdfsPath E p (pathSuffix (files ! i))
         \<and> isDirectory (result ! i) = (type (files ! i) = ''DIRECTORY''))"
  using enumerateFiles_first [OF assms, of E]
  by (simp add: enumerateFiles_callback_def state_of_resolve createPath_def)

theorem enumerateFiles_maps_listing_witness:
  "client_readdir
     (example_client [(None, [\<lparr>type = ''DIRECTORY'', pathSuffix = ''d''\<rparr>,
                              \<lparr>type = ''FILE'', pathSuffix = ''f''\<rparr>])] [] [] [] []) ''/p''
     = (None, [\<lparr>type = ''DIRECTORY'', pathSuffix = ''d''\<rparr>,
               \<lparr>type = ''FILE'', pathSuffix = ''f''\<rparr>]) # []
   \<and> state_of (enumerateFiles example_env
       (example_client [(None, [\<lparr>type = ''DIRECTORY'', pathSuffix = ''d''\<rparr>,
                                \<lparr>type = ''FILE'', pathSuffix = ''f''\<rparr>])] [] [] [] []) ''/p'')
     = Fulfilled [\<lparr>path = ''/p/d'', isDirectory = True\<rparr>,
                  \<lparr>path = ''/p/f'', isDirectory = False\<rparr>]"
  using enumerateFiles_maps_listing
    [of "example_client [(None, [\<lparr>type = ''DIRECTORY'', pathSuffix = ''d''\<rparr>,
                              \<lparr>type = ''FILE'', pathSuffix = ''f''\<rparr>])] [] [] [] []"
        "''/p''" "[\<lparr>type = ''DIRECTORY'', pathSuffix = ''d''\<rparr>,
                              \<lparr>type = ''FILE'', pathSuffix = ''f''\<rparr>]" "[]" example_env]
  by (simp add: example_client_def example_env_def joinHdfsPath_def)

section \<open>Error shapes of the callback operations\<close>

lemma mkdir_callback_append: "mkdir_callback pr err = pr @ mkdir_callback [] err"
  by (auto simp: mkdir_callback_def resolve_def reject_def split: option.splits)

lemma mkdir_callback_nonempty: "mkdir_callback [] err \<noteq> []"
  by (auto simp: mkdir_callback_def resolve_def reject_def split: option.splits)

lemma delete_callback_append: "delete_callback pr err = pr @ delete_callback [] err"
  by (auto simp: delete_callback_def resolve_def reject_def split: option.splits)

lemma delete_callback_nonempty: "delete_callback [] err \<noteq> []"
  by (auto simp: delete_callback_def resolve_def reject_def split: option.splits)

lemma mkdir_first:
  "client_mkdir client (joinHdfsPath E remoteBasePath dirName) = err # later \<Longrightarrow>
   state_of (mkdir E client dirName remoteBasePath) = state_of (mkdir_callback [] err)"
  unfolding mkdir_def Let_def
  using state_of_first_call [of mkdir_callback err later]
    mkdir_callback_append mkdir_callback_nonempty
  by metis

lemma delete_first:
  "client_rmdir client p (case recursive of None \<Rightarrow> False | Some r \<Rightarrow> r) = err # later \<Longrightarrow>
   state_of (delete client p recursive) = state_of (delete_callback [] err)"
  unfolding delete_def
  using state_of_first_call [of delete_callback err later]
    delete_callback_append delete_callback_nonempty
  by metis

text \<open>
  Claim C7. On a client error \<open>enumerateFiles\<close> rejects with the message string of
  the error, while \<open>mkdir\<close> and \<open>delete\<close> reject with the error value itself. The
  types of the three promises fix the shape: a string for the first, an error value for
  the other two.
\<close>

theorem client_error_shapes:
  "(client_readdir client p = (Some error, files) # later1 \<longrightarrow>
      state_of (enumerateFiles E client p) = Rejected (message error))
   \<and> (client_mkdir client (joinHdfsPath E remoteBasePath dirName) = Some err # later2
        \<and> truthy_err (Some err) \<longrightarrow>
      state_of (mkdir E client dirName remoteBasePath) = Rejected err)
   \<and> (client_rmdir client p (case recursive of None \<Rightarrow> False | Some r \<Rightarrow> r) = Some err # later3
        \<and> truthy_err (Some err) \<longrightarrow>
      state_of (delete client p recursive) = Rejected err)"
proof (intro conjI impI)
  assume "client_readdir client p = (Some error, files) # later1"
  from enumerateFiles_first [OF this, of E]
  show "state_of (enumerateFiles E client p) = Rejected (message error)"
    by (simp add: enumerateFiles_callback_def state_of_reject)
next
  assume a: "client_mkdir client (joinHdfsPath E remoteBasePath dirName) = Some err # later2
        \<and> truthy_err (Some err)"
  then have "state_of (mkdir E client dirName remoteBasePath) = state_of (mkdir_callback [] (Some err))"
    using mkdir_first by blast
  with a show "state_of (mkdir E client dirName remoteBasePath) = Rejected err"
    by (simp add: mkdir_callback_def state_of_reject)
next
  assume a: "client_rmdir client p (case recursive of None \<Rightarrow> False | Some r \<Rightarrow> r) = Some err # later3
        \<and> truthy_err (Some err)"
  then have "state_of (delete client p recursive) = state_of (delete_callback [] (Some err))"
    using delete_first by blast
  with a show "state_of (delete client p recursive) = Rejected err"
    by (simp add: delete_callback_def state_of_reject)
qed

theorem client_error_shapes_witness:
  "state_of (enumerateFiles example_env
      (example_client [(Some example_error, [])] [] [] [Some (ErrObj example_error)] []) ''/p'')
     = Rejected ''boom''
   \<and> state_of (mkdir example_env
      (example_client [(Some example_error, [])] [] [] [Some (ErrObj example_error)] []) ''d'' ''/p'')
     = Rejected (ErrObj example_error)
   \<and> state_of (delete
      (example_client [(Some example_error, [])] [] [] [Some (ErrObj example_error)] []) ''/p'' None)
     = Rejected (ErrObj example_error)"
  using client_error_shapes
    [of "example_client [(Some example_error, [])] [] [] [Some (ErrObj example_error)] []"
        "''/p''" example_error "[]" "[]" example_env "''/p''" "''d''" "ErrObj example_error" "[]"
        None "[]"]
  by (simp add: example_client_def example_error_def)

section \<open>exists\<close>

lemma exists_calls: "exists client p = map Resolve (client_exists client p)"
proof -
  have "foldl (\<lambda>pr result. resolve result pr) pr xs = pr @ map Resolve xs" for pr :: "(bool, err_value) promise" and xs
    by (induction xs arbitrary: pr) (simp_all add: resolve_def)
  then show ?thesis by (simp add: exists_def)
qed

text \<open>
  Claim C8. \<open>exists\<close> resolves with the boolean the client's callback reports (it
  stays pending while the client has not called back) and never rejects: rejection is
  never called.
\<close>

theorem exists_resolves_with_result:
  "state_of (exists client p) =
     (case client_exists client p of [] \<Rightarrow> Pending | result # _ \<Rightarrow> Fulfilled result)
   \<and> (\<forall>e. state_of (exists client p) \<noteq> Rejected e)
   \<and> list_all is_Resolve (exists client p)"
  by (cases "client_exists client p") (simp_all add: exists_calls list_all_iff)

theorem exists_resolves_with_result_witness:
  "state_of (exists (example_client [] [] [] [] [True]) ''/p'') = Fulfilled True
   \<and> state_of (exists (example_client [] [] [] [] [False]) ''/p'') = Fulfilled False"
  using exists_resolves_with_result [of "example_client [] [] [] [] [True]" "''/p''"]
    exists_resolves_with_result [of "example_client [] [] [] [] [False]" "''/p''"]
  by (simp add: example_client_def)

section \<open>readFile\<close>

lemma readFile_data:
  "foldl (readFile_emit E m) st (map REvData cs) = st\<lparr>rf_data := rf_data st @ cs\<rparr>"
  by (induction cs arbitrary: st) (simp_all add: readFile_onData_def)

lemma readFile_emit_extends: "\<exists>q. rf_promise (readFile_emit E m st ev) = rf_promise st @ q"
  by (cases ev)
    (simp_all add: readFile_onError_def readFile_onData_def readFile_onFinish_def
      resolve_def reject_def Let_def)

lemma readFile_run_extends:
  "\<exists>q. rf_promise (foldl (readFile_emit E m) st evs) = rf_promise st @ q"
proof (induction evs arbitrary: st)
  case Nil
  show ?case by simp
next
  case (Cons ev evs)
  obtain q1 where q1: "rf_promise (readFile_emit E m st ev) = rf_promise st @ q1"
    using readFile_emit_extends by blast
  obtain q2 where "rf_promise (foldl (readFile_emit E m) (readFile_emit E m st ev) evs) =
      rf_promise (readFile_emit E m st ev) @ q2"
    using Cons.IH by blast
  then show ?case by (simp add: q1)
qed

lemma readFile_settled_stays:
  assumes "rf_promise st \<noteq> []"
  shows "state_of (rf_promise (foldl (readFile_emit E m) st evs)) = state_of (rf_promise st)"
proof -
  obtain q where "rf_promise (foldl (readFile_emit E m) st evs) = rf_promise st @ q"
    using readFile_run_extends by blast
  then show ?thesis using assms by (simp add: state_of_append)
qed

lemma readFile_no_resolve_after_error:
  assumes "truthy_string (rf_error st)"
    and "list_all (\<lambda>c. \<not> is_Resolve c) (rf_promise st)"
    and "\<forall>e. REvError e \<in> set evs \<longrightarrow> readFile_error_text E m e \<noteq> []"
  shows "list_all (\<lambda>c. \<not> is_Resolve c) (rf_promise (foldl (readFile_emit E m) st evs))"
  using assms
proof (induction evs arbitrary: st)
  case Nil
  then show ?case by simp
next
  case (Cons ev evs)
  have "truthy_string (rf_error (readFile_emit E m st ev))
      \<and> list_all (\<lambda>c. \<not> is_Resolve c) (rf_promise (readFile_emit E m st ev))"
  proof (cases ev)
    case (REvError e)
    then have "readFile_error_text E m e \<noteq> []" using Cons.prems(3) by simp
    then show ?thesis using REvError Cons.prems(2)
      by (simp add: readFile_onError_def reject_def Let_def)
  next
    case (REvData c)
    then show ?thesis using Cons.prems(1,2) by (simp add: readFile_onData_def)
  next
    case REvFinish
    then show ?thesis using Cons.prems(1,2) by (simp add: readFile_onFinish_def)
  qed
  moreover have "\<forall>e. REvError e \<in> set evs \<longrightarrow> readFile_error_text E m e \<noteq> []"
    using Cons.prems(3) by simp
  ultimately show ?case using Cons.IH by simp
qed

lemma readFile_after_first_error:
  "foldl (readFile_emit E m) readFile_init (map REvData cs @ [REvError err]) =
     \<lparr>rf_data = cs, rf_error = Some (readFile_error_text E m err), rf_finish_listener = True,
      rf_promise = [Reject (readFile_error_text E m err)]\<rparr>"
  by (simp add: readFile_data readFile_init_def readFile_onError_def reject_def Let_def)

lemma readFile_after_first_finish:
  "foldl (readFile_emit E m) readFile_init (map REvData cs @ [REvFinish]) =
     \<lparr>rf_data = cs, rf_error = None, rf_finish_listener = False,
      rf_promise = [Resolve (concat cs)]\<rparr>"
  by (simp add: readFile_data readFile_init_def readFile_onFinish_def resolve_def)

text \<open>
  An error on the stream the listeners are attached to. When it is the first signal of
  that stream after its data, the promise of \<open>readFile\<close> is rejected, whatever events
  follow. The rejection is the text \<open>File exceeds max size of\<close> with the formatted
  maximum when the error text contains \<open>Stream exceeded specified max\<close>, and the
  error's own text otherwise. As long as no error text is empty, \<open>resolve\<close> is never
  called.
\<close>

lemma readFile_rejects_listened_error:
  assumes "readFile_stream E client p maxBytes = map REvData chunks @ REvError err # rest"
  shows "state_of (rf_promise (readFile E client p maxBytes)) =
           Rejected (readFile_error_text E maxBytes err)
     \<and> (str_includes (toString err) ''Stream exceeded specified max'' \<longrightarrow>
          readFile_error_text E maxBytes err = ''File exceeds max size of '' @ bytes E maxBytes)
     \<and> (\<not> str_includes (toString err) ''Stream exceeded specified max'' \<longrightarrow>
          readFile_error_text E maxBytes err = toString err)
     \<and> ((\<forall>e. REvError e \<in> set (REvError err # rest) \<longrightarrow> readFile_error_text E maxBytes e \<noteq> []) \<longrightarrow>
          list_all (\<lambda>c. \<not> is_Resolve c) (rf_promise (readFile E client p maxBytes)))"
proof -
  let ?st = "foldl (readFile_emit E maxBytes) readFile_init (map REvData chunks @ [REvError err])"
  have run: "readFile E client p maxBytes = foldl (readFile_emit E maxBytes) ?st rest"
    by (simp add: readFile_def assms)
  have st: "?st = \<lparr>rf_data = chunks, rf_error = Some (readFile_error_text E maxBytes err),
      rf_finish_listener = True, rf_promise = [Reject (readFile_error_text E maxBytes err)]\<rparr>"
    by (rule readFile_after_first_error)
  have "state_of (rf_promise (readFile E client p maxBytes)) = state_of (rf_promise ?st)"
    unfolding run by (rule readFile_settled_stays) (simp only: st, simp)
  then have rejected: "state_of (rf_promise (readFile E client p maxBytes)) =
      Rejected (readFile_error_text E maxBytes err)"
    by (simp only: st, simp)
  have quiet: "list_all (\<lambda>c. \<not> is_Resolve c) (rf_promise (readFile E client p maxBytes))"
    if h: "\<forall>e. REvError e \<in> set (REvError err # rest) \<longrightarrow> readFile_error_text E maxBytes e \<noteq> []"
  proof -
    have "truthy_string (rf_error ?st)" using h by (simp only: st, simp)
    moreover have "list_all (\<lambda>c. \<not> is_Resolve c) (rf_promise ?st)" by (simp only: st, simp)
    moreover have "\<forall>e. REvError e \<in> set rest \<longrightarrow> readFile_error_text E maxBytes e \<noteq> []"
      using h by simp
    ultimately show ?thesis unfolding run by (rule readFile_no_resolve_after_error)
  qed
  show ?thesis
    using rejected quiet by (simp add: readFile_error_text_def Let_def)
qed

lemma readFile_limited_stream:
  assumes "truthy_number (Some n)"
  shows "readFile_stream E client p (Some n) =
           meter E n (filter (\<lambda>ev. \<not> isError ev) (client_createReadStream client p))"
  using assms by (simp add: readFile_stream_def pipe_def)

text \<open>
  With a truthy limit the listeners are attached to the limiter, and \<open>pipe\<close> passes
  no error of the read stream on: for every limiter, the call runs as if the read stream
  had reported no error at all.
\<close>

lemma readFile_limited_ignores_source_errors:
  assumes "truthy_number (Some n)"
  shows "readFile E client p (Some n) =
           readFile E
             (client\<lparr>client_createReadStream :=
                \<lambda>q. filter (\<lambda>ev. \<not> isError ev) (client_createReadStream client q)\<rparr>)
             p (Some n)"
  using assms by (simp add: readFile_def readFile_stream_def pipe_def)

text \<open>
  Claim C10. With a byte limit of zero \<open>readFile\<close> attaches no limiter: its listeners
  are on the client's own stream, exactly as with no limit given, and when that stream
  delivers its chunks and finishes, the promise resolves with the concatenation of all
  chunks.
\<close>

theorem readFile_zero_limit_unbounded:
  "readFile_stream E client p (Some (Num 0)) = client_createReadStream client p
   \<and> readFile_stream E client p (Some (Num 0)) = readFile_stream E client p None
   \<and> (client_createReadStream client p = map REvData chunks @ REvFinish # rest \<longrightarrow>
        state_of (rf_promise (readFile E client p (Some (Num 0)))) = Fulfilled (concat chunks))"
proof -
  have s: "readFile_stream E client p (Some (Num 0)) = client_createReadStream client p"
    by (simp add: readFile_stream_def)
  have n: "readFile_stream E client p None = client_createReadStream client p"
    by (simp add: readFile_stream_def)
  have "state_of (rf_promise (readFile E client p (Some (Num 0)))) = Fulfilled (concat chunks)"
    if ev: "client_createReadStream client p = map REvData chunks @ REvFinish # rest"
  proof -
    let ?m = "Some (Num 0)"
    let ?st = "foldl (readFile_emit E ?m) readFile_init (map REvData chunks @ [REvFinish])"
    have run: "readFile E client p ?m = foldl (readFile_emit E ?m) ?st rest"
      by (simp add: readFile_def s ev)
    have st: "?st = \<lparr>rf_data = chunks, rf_error = None, rf_finish_listener = False,
        rf_promise = [Resolve (concat chunks)]\<rparr>"
      by (rule readFile_after_first_finish)
    have "state_of (rf_promise (readFile E client p ?m)) = state_of (rf_promise ?st)"
      unfolding run by (rule readFile_settled_stays) (simp only: st, simp)
    then show ?thesis by (simp only: st, simp)
  qed
  then show ?thesis using s n by simp
qed

lemma example_limited_stream:
  "readFile_stream example_env (reads_client [REvData ten_bytes, REvData ten_bytes, REvFinish])
     ''/f'' (Some (Num 10)) = map REvData [ten_bytes, ten_bytes] @ REvError (exceeded_error (Num 10)) # []"
  by (simp add: readFile_stream_def pipe_def example_env_def reads_client_def example_client_def
      ten_bytes_def Let_def)

lemma example_bytes_10: "example_bytes (Some (Num 10)) = ''10B''"
  by code_simp

lemma example_exceeded_text:
  "str_includes (toString (exceeded_error (Num 10))) ''Stream exceeded specified max''"
  by code_simp

lemma example_raw_text:
  "\<not> str_includes ''socket hang up'' ''Stream exceeded specified max''"
  by code_simp

lemma example_raw_stream:
  "readFile_stream example_env
     (reads_client [REvData ''ab'', REvError (ErrStr ''socket hang up''), REvFinish]) ''/f'' None
   = map REvData [''ab''] @ REvError (ErrStr ''socket hang up'') # [REvFinish]"
  by (simp add: readFile_stream_def reads_client_def example_client_def)

lemma readFile_limit_exceeded_example:
  "state_of (rf_promise (readFile example_env
      (reads_client [REvData ten_bytes, REvData ten_bytes, REvFinish]) ''/f'' (Some (Num 10))))
     = Rejected ''File exceeds max size of 10B''"
  using readFile_rejects_listened_error [OF example_limited_stream] example_exceeded_text
  by (simp add: example_env_def example_bytes_10)

lemma readFile_raw_text_example:
  "state_of (rf_promise (readFile example_env
      (reads_client [REvData ''ab'', REvError (ErrStr ''socket hang up''), REvFinish]) ''/f'' None))
     = Rejected ''socket hang up''
   \<and> list_all (\<lambda>c. \<not> is_Resolve c) (rf_promise (readFile example_env
        (reads_client [REvData ''ab'', REvError (ErrStr ''socket hang up''), REvFinish]) ''/f'' None))"
  using readFile_rejects_listened_error [OF example_raw_stream] example_raw_text
  by simp

text \<open>
  Claim C2. With a byte limit, the claim has every stream error other than the
  limiter's reject the promise with its raw text. The code does not: a read with limit
  10 whose read stream reports \<open>socket hang up\<close> after the chunk \<open>ab\<close> resolves
  with \<open>ab\<close> when the stream then finishes, and stays pending when it does not. The
  same read with no limit rejects with \<open>socket hang up\<close>.
\<close>

theorem readFile_limited_source_error_unheard:
  "state_of (rf_promise (readFile example_env
      (reads_client [REvData ''ab'', REvError (ErrStr ''socket hang up''), REvFinish])
      ''/f'' (Some (Num 10)))) = Fulfilled ''ab''
   \<and> state_of (rf_promise (readFile example_env
      (reads_client [REvData ''ab'', REvError (ErrStr ''socket hang up'')])
      ''/f'' (Some (Num 10)))) = Pending
   \<and> state_of (rf_promise (readFile example_env
      (reads_client [REvData ''ab'', REvError (ErrStr ''socket hang up''), REvFinish])
      ''/f'' None)) = Rejected ''socket hang up''"
  by (simp add: readFile_def readFile_stream_def pipe_def example_env_def reads_client_def
      example_client_def readFile_init_def readFile_onData_def readFile_onFinish_def
      readFile_onError_def readFile_error_text_def example_raw_text resolve_def reject_def Let_def)

theorem readFile_zero_limit_unbounded_witness:
  "client_createReadStream (reads_client [REvData ''ab'', REvData ''cd'', REvFinish]) ''/f''
     = map REvData [''ab'', ''cd''] @ REvFinish # []
   \<and> state_of (rf_promise (readFile example_env
        (reads_client [REvData ''ab'', REvData ''cd'', REvFinish]) ''/f'' (Some (Num 0))))
       = Fulfilled ''abcd''"
  using readFile_zero_limit_unbounded
    [of example_env "reads_client [REvData ''ab'', REvData ''cd'', REvFinish]" "''/f''"
        "[''ab'', ''cd'']" "[]"]
  by (simp add: reads_client_def example_client_def)

section \<open>readFileLines\<close>

lemma join_Cons: "join (l # ls) sep = l @ concat (map (\<lambda>x. sep @ x) ls)"
  by (induction ls arbitrary: l) simp_all

lemma js_ge_mono: "js_ge (Num a) m \<Longrightarrow> a \<le> b \<Longrightarrow> js_ge (Num b) m"
  by (cases m) auto

lemma readFileLines_below_limit:
  assumes "ls = [] \<or> \<not> js_ge (Num (int (lineCount st + length ls))) maxLines"
  shows "foldl (readFileLines_emit E maxLines) st (map LEvLine ls) =
           st\<lparr>lineCount := lineCount st + length ls, lineData := lineData st @ ls\<rparr>"
  using assms
proof (induction ls arbitrary: st)
  case Nil
  show ?case by simp
next
  case (Cons l ls)
  let ?st1 = "st\<lparr>lineCount := lineCount st + 1, lineData := lineData st @ [l]\<rparr>"
  have top: "\<not> js_ge (Num (int (lineCount st + length (l # ls)))) maxLines"
    using Cons.prems by simp
  have "\<not> js_ge (Num (int (lineCount st + 1))) maxLines"
    using top js_ge_mono [of "int (lineCount st + 1)" maxLines "int (lineCount st + length (l # ls))"]
    by auto
  then have step: "readFileLines_onLine E maxLines st l = ?st1"
    by (simp add: readFileLines_onLine_def Let_def)
  have "ls = [] \<or> \<not> js_ge (Num (int (lineCount ?st1 + length ls))) maxLines"
    using top by (simp add: add.commute add.left_commute)
  then have "foldl (readFileLines_emit E maxLines) ?st1 (map LEvLine ls) =
      ?st1\<lparr>lineCount := lineCount ?st1 + length ls, lineData := lineData ?st1 @ ls\<rparr>"
    by (rule Cons.IH)
  then show ?case by (simp add: step)
qed

lemma readFileLines_emit_extends:
  "\<exists>q. rl_promise (readFileLines_emit E m st ev) = rl_promise st @ q"
  by (cases ev)
    (simp_all add: readFileLines_onLine_def readFileLines_onError_def lineReader_close_def
      readFileLines_onClose_def resolve_def reject_def Let_def)

lemma readFileLines_run_extends:
  "\<exists>q. rl_promise (foldl (readFileLines_emit E m) st evs) = rl_promise st @ q"
proof (induction evs arbitrary: st)
  case Nil
  show ?case by simp
next
  case (Cons ev evs)
  obtain q1 where q1: "rl_promise (readFileLines_emit E m st ev) = rl_promise st @ q1"
    using readFileLines_emit_extends by blast
  obtain q2 where "rl_promise (foldl (readFileLines_emit E m) (readFileLines_emit E m st ev) evs) =
      rl_promise (readFileLines_emit E m st ev) @ q2"
    using Cons.IH by blast
  then show ?case by (simp add: q1)
qed

lemma readFileLines_settled_stays:
  assumes "rl_promise st \<noteq> []"
  shows "state_of (rl_promise (foldl (readFileLines_emit E m) st evs)) = state_of (rl_promise st)"
proof -
  obtain q where "rl_promise (foldl (readFileLines_emit E m) st evs) = rl_promise st @ q"
    using readFileLines_run_extends by blast
  then show ?thesis using assms by (simp add: state_of_append)
qed

lemma readFileLines_emit_closed: "closed st \<Longrightarrow> closed (readFileLines_emit E m st ev)"
  by (cases ev)
    (simp_all add: readFileLines_onLine_def readFileLines_onError_def lineReader_close_def
      readFileLines_onClose_def Let_def)

lemma readFileLines_closed_stays:
  "closed st \<Longrightarrow> closed (foldl (readFileLines_emit E m) st evs)"
  by (induction evs arbitrary: st) (simp_all add: readFileLines_emit_closed)

lemma readFileLines_before_limit:
  assumes "ls = [] \<or> \<not> js_ge (Num (int (length ls))) maxLines"
  shows "foldl (readFileLines_emit E maxLines) readFileLines_init (map LEvLine ls) =
           \<lparr>lineCount = length ls, lineData = ls, errorMsg = None, closed = False, rl_promise = []\<rparr>"
  using readFileLines_below_limit [where st = readFileLines_init and ls = ls and maxLines = maxLines and E = E] assms
  by (simp add: readFileLines_init_def)

text \<open>
  Claim C6. When the reader closes after lines that did not bring the counter to the
  limit, with no error before, the promise resolves with these lines joined by the line
  terminator: the first line, and then each further line behind a terminator. A reader
  that closes before any line resolves it with the empty text.
\<close>

theorem readFileLines_natural_close:
  assumes "lineReader_events E client p = map LEvLine ls @ LEvClose # rest"
    and "ls = [] \<or> \<not> js_ge (Num (int (length ls))) maxLines"
  shows "state_of (rl_promise (readFileLines E client p maxLines)) = Fulfilled (join ls (os_EOL E))
     \<and> join ls (os_EOL E) =
         (case ls of [] \<Rightarrow> [] | l # later \<Rightarrow> l @ concat (map (\<lambda>x. os_EOL E @ x) later))"
proof -
  let ?st = "foldl (readFileLines_emit E maxLines) readFileLines_init (map LEvLine ls @ [LEvClose])"
  have run: "readFileLines E client p maxLines = foldl (readFileLines_emit E maxLines) ?st rest"
    by (simp add: readFileLines_def assms(1))
  have st: "rl_promise ?st = [Resolve (join ls (os_EOL E))]"
    using readFileLines_before_limit [where ls = ls and maxLines = maxLines and E = E] assms(2)
    by (simp add: lineReader_close_def readFileLines_onClose_def resolve_def)
  have "state_of (rl_promise (readFileLines E client p maxLines)) = state_of (rl_promise ?st)"
    unfolding run by (rule readFileLines_settled_stays) (simp only: st, simp)
  then have resolved: "state_of (rl_promise (readFileLines E client p maxLines)) =
      Fulfilled (join ls (os_EOL E))"
    by (simp only: st, simp)
  have joined: "join ls (os_EOL E) =
      (case ls of [] \<Rightarrow> [] | l # later \<Rightarrow> l @ concat (map (\<lambda>x. os_EOL E @ x) later))"
    by (cases ls) (simp_all add: join_Cons)
  show ?thesis using resolved joined by blast
qed

lemma readFileLines_at_limit:
  assumes "int (length ls) = max n 1"
  shows "foldl (readFileLines_emit E (Num n)) readFileLines_init (map LEvLine ls) =
           \<lparr>lineCount = length ls, lineData = ls, errorMsg = None, closed = True,
            rl_promise = [Resolve (join ls (os_EOL E)), Resolve (join ls (os_EOL E))]\<rparr>"
proof -
  from assms have "ls \<noteq> []" by auto
  then obtain bs l where ls: "ls = bs @ [l]" by (metis rev_exhaust)
  have "bs = [] \<or> \<not> js_ge (Num (int (length bs))) (Num n)"
    using assms by (cases bs) (auto simp: ls)
  then have before: "foldl (readFileLines_emit E (Num n)) readFileLines_init (map LEvLine bs) =
      \<lparr>lineCount = length bs, lineData = bs, errorMsg = None, closed = False, rl_promise = []\<rparr>"
    by (rule readFileLines_before_limit)
  have "js_ge (Num (int (length bs + 1))) (Num n)"
    using assms by (auto simp: ls)
  then show ?thesis
    by (simp add: ls before readFileLines_onLine_def lineReader_close_def
        readFileLines_onClose_def resolve_def Let_def)
qed

text \<open>
  Claim C3, as amended. For a limit \<open>n\<close> and a reader whose first \<open>max n 1\<close> events
  are lines, the promise is pending before the last of them and resolves at that line
  with exactly these lines joined by the line terminator; the reader is closed, and
  whatever the reader emits afterwards changes neither. For \<open>n \<ge> 1\<close> these are the
  first \<open>n\<close> lines; for \<open>n \<le> 0\<close> it is the first line alone.
\<close>

theorem readFileLines_stops_at_limit:
  assumes "lineReader_events E client p = map LEvLine ls @ rest"
    and "int (length ls) = max n 1"
  shows "state_of (rl_promise (readFileLines E client p (Num n))) = Fulfilled (join ls (os_EOL E))
     \<and> closed (readFileLines E client p (Num n))
     \<and> state_of (rl_promise (foldl (readFileLines_emit E (Num n)) readFileLines_init
          (map LEvLine ls))) = Fulfilled (join ls (os_EOL E))
     \<and> closed (foldl (readFileLines_emit E (Num n)) readFileLines_init (map LEvLine ls))
     \<and> (\<forall>k < length ls.
          state_of (rl_promise (foldl (readFileLines_emit E (Num n)) readFileLines_init
            (map LEvLine (take k ls)))) = Pending)"
proof -
  let ?st = "foldl (readFileLines_emit E (Num n)) readFileLines_init (map LEvLine ls)"
  have run: "readFileLines E client p (Num n) = foldl (readFileLines_emit E (Num n)) ?st rest"
    by (simp add: readFileLines_def assms(1))
  have st: "?st = \<lparr>lineCount = length ls, lineData = ls, errorMsg = None, closed = True,
            rl_promise = [Resolve (join ls (os_EOL E)), Resolve (join ls (os_EOL E))]\<rparr>"
    by (rule readFileLines_at_limit [OF assms(2)])
  have "state_of (rl_promise (readFileLines E client p (Num n))) = state_of (rl_promise ?st)"
    unfolding run by (rule readFileLines_settled_stays) (simp only: st, simp)
  then have a: "state_of (rl_promise (readFileLines E client p (Num n))) =
      Fulfilled (join ls (os_EOL E))"
    by (simp only: st, simp)
  have b: "closed (readFileLines E client p (Num n))"
    unfolding run by (rule readFileLines_closed_stays) (simp only: st, simp)
  have c: "state_of (rl_promise (foldl (readFileLines_emit E (Num n)) readFileLines_init
            (map LEvLine (take k ls)))) = Pending" if "k < length ls" for k
  proof -
    have "take k ls = [] \<or> \<not> js_ge (Num (int (length (take k ls)))) (Num n)"
      using that assms(2) by (cases k) auto
    from readFileLines_before_limit [OF this, where E = E] show ?thesis by simp
  qed
  have d: "state_of (rl_promise ?st) = Fulfilled (join ls (os_EOL E)) \<and> closed ?st"
    by (simp only: st, simp)
  show ?thesis using a b c d by blast
qed

text \<open>
  Claim C3 as stated asks for exactly the first \<open>maxLines\<close> lines. With a limit
  of zero and a source of two lines, \<open>readFileLines\<close> resolves with the first
  line, not with the first zero lines: the counter is compared with the limit only
  after a line has been counted and stored.
\<close>

theorem readFileLines_first_line_counterexample:
  "lineReader_events example_env (reads_client [REvData ''a'', REvData ''b'', REvFinish]) ''/f''
     = map LEvLine [''a'', ''b''] @ [LEvClose]
   \<and> state_of (rl_promise (readFileLines example_env
        (reads_client [REvData ''a'', REvData ''b'', REvFinish]) ''/f'' (Num 0))) = Fulfilled ''a''
   \<and> state_of (rl_promise (readFileLines example_env
        (reads_client [REvData ''a'', REvData ''b'', REvFinish]) ''/f'' (Num 0)))
       \<noteq> Fulfilled (join (take 0 [''a'', ''b'']) (os_EOL example_env))"
  by (simp add: readFileLines_def lineReader_events_def reads_client_def example_client_def
      example_env_def readFileLines_init_def readFileLines_onLine_def lineReader_close_def
      readFileLines_onClose_def resolve_def Let_def)

theorem readFileLines_stops_at_limit_witness:
  "lineReader_events example_env
     (reads_client [REvData ''a'', REvData ''b'', REvData ''c'', REvData ''d'', REvData ''e'',
        REvFinish]) ''/f''
     = map LEvLine [''a'', ''b''] @ [LEvLine ''c'', LEvLine ''d'', LEvLine ''e'', LEvClose]
   \<and> int (length [''a'', ''b'']) = max 2 1
   \<and> state_of (rl_promise (readFileLines example_env
        (reads_client [REvData ''a'', REvData ''b'', REvData ''c'', REvData ''d'', REvData ''e'',
           REvFinish]) ''/f'' (Num 2)))
       = Fulfilled [CHR ''a'', CHR 0x0A, CHR ''b'']
   \<and> closed (readFileLines example_env
        (reads_client [REvData ''a'', REvData ''b'', REvData ''c'', REvData ''d'', REvData ''e'',
           REvFinish]) ''/f'' (Num 2))"
proof -
  have ev: "lineReader_events example_env
     (reads_client [REvData ''a'', REvData ''b'', REvData ''c'', REvData ''d'', REvData ''e'',
        REvFinish]) ''/f''
     = map LEvLine [''a'', ''b''] @ [LEvLine ''c'', LEvLine ''d'', LEvLine ''e'', LEvClose]"
    by (simp add: lineReader_events_def reads_client_def example_client_def example_env_def)
  have len: "int (length [''a'', ''b'']) = max 2 1" by simp
  show ?thesis
    using readFileLines_stops_at_limit [OF ev len] ev
    by (simp add: example_env_def)
qed

theorem readFileLines_natural_close_witness:
  "lineReader_events example_env (reads_client [REvData ''a'', REvData ''b'', REvFinish]) ''/f''
     = map LEvLine [''a'', ''b''] @ LEvClose # []
   \<and> \<not> js_ge (Num (int (length [''a'', ''b'']))) (Num 5)
   \<and> state_of (rl_promise (readFileLines example_env
        (reads_client [REvData ''a'', REvData ''b'', REvFinish]) ''/f'' (Num 5)))
       = Fulfilled [CHR ''a'', CHR 0x0A, CHR ''b'']
   \<and> state_of (rl_promise (readFileLines example_env
        (reads_client [REvData ''only'', REvFinish]) ''/f'' (Num 5))) = Fulfilled ''only''
   \<and> state_of (rl_promise (readFileLines example_env
        (reads_client [REvFinish]) ''/f'' (Num 0))) = Fulfilled []"
proof -
  have ev2: "lineReader_events example_env
     (reads_client [REvData ''a'', REvData ''b'', REvFinish]) ''/f''
     = map LEvLine [''a'', ''b''] @ LEvClose # []"
    by (simp add: lineReader_events_def reads_client_def example_client_def example_env_def)
  have lt2: "[''a'', ''b''] = [] \<or> \<not> js_ge (Num (int (length [''a'', ''b'']))) (Num 5)" by simp
  have ev1: "lineReader_events example_env (reads_client [REvData ''only'', REvFinish]) ''/f''
     = map LEvLine [''only''] @ LEvClose # []"
    by (simp add: lineReader_events_def reads_client_def example_client_def example_env_def)
  have lt1: "[''only''] = [] \<or> \<not> js_ge (Num (int (length [''only'']))) (Num 5)" by simp
  have ev0: "lineReader_events example_env (reads_client [REvFinish]) ''/f''
     = map LEvLine [] @ LEvClose # []"
    by (simp add: lineReader_events_def reads_client_def example_client_def example_env_def)
  have lt0: "([] :: string list) = [] \<or> \<not> js_ge (Num (int (length ([] :: string list)))) (Num 0)"
    by simp
  have two: "state_of (rl_promise (readFileLines example_env
        (reads_client [REvData ''a'', REvData ''b'', REvFinish]) ''/f'' (Num 5)))
       = Fulfilled (''a'' @ concat (map (\<lambda>x. os_EOL example_env @ x) [''b'']))"
    using readFileLines_natural_close [OF ev2 lt2] by simp
  show ?thesis
    using two readFileLines_natural_close [OF ev1 lt1] readFileLines_natural_close [OF ev0 lt0] ev2
    by (simp add: example_env_def)
qed

section \<open>writeFile\<close>

lemma writeFile_emit_extends: "\<exists>q. wf_promise (writeFile_emit st ev) = wf_promise st @ q"
  by (cases ev) (simp_all add: resolve_def reject_def)

lemma writeFile_run_extends: "\<exists>q. wf_promise (foldl writeFile_emit st evs) = wf_promise st @ q"
proof (induction evs arbitrary: st)
  case Nil
  show ?case by simp
next
  case (Cons ev evs)
  obtain q1 where q1: "wf_promise (writeFile_emit st ev) = wf_promise st @ q1"
    using writeFile_emit_extends by blast
  obtain q2 where "wf_promise (foldl writeFile_emit (writeFile_emit st ev) evs) =
      wf_promise (writeFile_emit st ev) @ q2"
    using Cons.IH by blast
  then show ?case by (simp add: q1)
qed

lemma writeFile_settled_stays:
  assumes "wf_promise st \<noteq> []"
  shows "state_of (wf_promise (foldl writeFile_emit st evs)) = state_of (wf_promise st)"
proof -
  obtain q where "wf_promise (foldl writeFile_emit st evs) = wf_promise st @ q"
    using writeFile_run_extends by blast
  then show ?thesis using assms by (simp add: state_of_append)
qed

lemma writeFile_first_event:
  "state_of (wf_promise (foldl writeFile_emit writeFile_init evs)) =
     (case evs of [] \<Rightarrow> Pending
      | WEvError err # _ \<Rightarrow> Rejected err
      | WEvFinish location # _ \<Rightarrow> Fulfilled location)"
proof (cases evs)
  case Nil
  then show ?thesis by (simp add: writeFile_init_def)
next
  case (Cons ev rest)
  have "state_of (wf_promise (foldl writeFile_emit (writeFile_emit writeFile_init ev) rest)) =
      state_of (wf_promise (writeFile_emit writeFile_init ev))"
    by (rule writeFile_settled_stays)
      (cases ev; simp add: writeFile_init_def resolve_def reject_def)
  then show ?thesis
    using Cons by (cases ev) (simp_all add: writeFile_init_def resolve_def reject_def)
qed

lemma writeFile_no_resolve_after_error:
  assumes "truthy_err (wf_error st)"
    and "list_all (\<lambda>c. \<not> is_Resolve c) (wf_promise st)"
    and "\<forall>e. WEvError e \<in> set evs \<longrightarrow> truthy_err (Some e)"
  shows "list_all (\<lambda>c. \<not> is_Resolve c) (wf_promise (foldl writeFile_emit st evs))"
  using assms
proof (induction evs arbitrary: st)
  case Nil
  then show ?case by simp
next
  case (Cons ev evs)
  have "truthy_err (wf_error (writeFile_emit st ev))
      \<and> list_all (\<lambda>c. \<not> is_Resolve c) (wf_promise (writeFile_emit st ev))"
    using Cons.prems by (cases ev) (simp_all add: reject_def)
  moreover have "\<forall>e. WEvError e \<in> set evs \<longrightarrow> truthy_err (Some e)"
    using Cons.prems(3) by simp
  ultimately show ?case using Cons.IH by simp
qed

text \<open>
  Claim C4. The promise of \<open>writeFile\<close> resolves with the location of a
  \<open>finish\<close> event exactly when that event comes before any error. When an error
  comes first, the promise is rejected with that error and a later \<open>finish\<close> does
  not settle it again; indeed, as long as the stream's errors are truthy values,
  \<open>resolve\<close> is never called.
\<close>

theorem writeFile_settles_by_first_event:
  "(\<forall>location rest. writeStream_events E client localFile remoteDirPath = WEvFinish location # rest \<longrightarrow>
      state_of (wf_promise (writeFile E client localFile remoteDirPath)) = Fulfilled location)
   \<and> (\<forall>location. state_of (wf_promise (writeFile E client localFile remoteDirPath)) = Fulfilled location \<longrightarrow>
      (\<exists>rest. writeStream_events E client localFile remoteDirPath = WEvFinish location # rest))
   \<and> (\<forall>err rest. writeStream_events E client localFile remoteDirPath = WEvError err # rest \<longrightarrow>
      state_of (wf_promise (writeFile E client localFile remoteDirPath)) = Rejected err)
   \<and> (\<forall>err rest. writeStream_events E client localFile remoteDirPath = WEvError err # rest
        \<and> (\<forall>e. WEvError e \<in> set (WEvError err # rest) \<longrightarrow> truthy_err (Some e)) \<longrightarrow>
      list_all (\<lambda>c. \<not> is_Resolve c) (wf_promise (writeFile E client localFile remoteDirPath)))"
proof -
  let ?evs = "writeStream_events E client localFile remoteDirPath"
  have first: "state_of (wf_promise (writeFile E client localFile remoteDirPath)) =
     (case ?evs of [] \<Rightarrow> Pending
      | WEvError err # _ \<Rightarrow> Rejected err
      | WEvFinish location # _ \<Rightarrow> Fulfilled location)"
    unfolding writeFile_def by (rule writeFile_first_event)
  have quiet: "list_all (\<lambda>c. \<not> is_Resolve c) (wf_promise (writeFile E client localFile remoteDirPath))"
    if ev: "?evs = WEvError err # rest"
      and h: "\<forall>e. WEvError e \<in> set (WEvError err # rest) \<longrightarrow> truthy_err (Some e)"
    for err rest
  proof -
    have run: "writeFile E client localFile remoteDirPath =
        foldl writeFile_emit (writeFile_emit writeFile_init (WEvError err)) rest"
      by (simp add: writeFile_def ev)
    have "truthy_err (wf_error (writeFile_emit writeFile_init (WEvError err)))"
      using h by simp
    moreover have "list_all (\<lambda>c. \<not> is_Resolve c)
        (wf_promise (writeFile_emit writeFile_init (WEvError err)))"
      by (simp add: writeFile_init_def reject_def)
    moreover have "\<forall>e. WEvError e \<in> set rest \<longrightarrow> truthy_err (Some e)" using h by simp
    ultimately show ?thesis unfolding run by (rule writeFile_no_resolve_after_error)
  qed
  have only_if: "\<exists>rest. ?evs = WEvFinish location # rest"
    if "state_of (wf_promise (writeFile E client localFile remoteDirPath)) = Fulfilled location"
    for location
    using that unfolding first by (auto split: list.splits write_event.splits)
  show ?thesis
    using quiet only_if by (auto simp: first)
qed

theorem writeFile_settles_by_first_event_witness:
  "state_of (wf_promise (writeFile example_env
      (writes_client [WEvFinish ''/dir/x.txt'']) \<lparr>path = ''/tmp/x.txt'', isDirectory = False\<rparr>
      ''/dir'')) = Fulfilled ''/dir/x.txt''
   \<and> state_of (wf_promise (writeFile example_env
      (writes_client [WEvError (ErrStr ''denied''), WEvFinish ''/dir/x.txt''])
      \<lparr>path = ''/tmp/x.txt'', isDirectory = False\<rparr> ''/dir'')) = Rejected (ErrStr ''denied'')
   \<and> list_all (\<lambda>c. \<not> is_Resolve c) (wf_promise (writeFile example_env
      (writes_client [WEvError (ErrStr ''denied''), WEvFinish ''/dir/x.txt''])
      \<lparr>path = ''/tmp/x.txt'', isDirectory = False\<rparr> ''/dir''))"
  using writeFile_settles_by_first_event
      [of example_env "writes_client [WEvFinish ''/dir/x.txt'']"
          "\<lparr>path = ''/tmp/x.txt'', isDirectory = False\<rparr>" "''/dir''"]
    writeFile_settles_by_first_event
      [of example_env "writes_client [WEvError (ErrStr ''denied''), WEvFinish ''/dir/x.txt'']"
          "\<lparr>path = ''/tmp/x.txt'', isDirectory = False\<rparr>" "''/dir''"]
  by (simp add: writeStream_events_def writes_client_def example_client_def)

end
